theory Spec2Isabelle
  imports Main "HOL-Library.Sublist"
begin

section \<open>The Python library calls made by the script\<close>

text \<open>
  The script \<^verbatim>\<open>scripts/create-dmg-background.py\<close> consists of one function,
  \<^verbatim>\<open>create_background\<close>, which formats a string, writes it to a file, runs an external
  utility and renames or removes files. The library calls it makes are modelled first.
  Paths and file contents are Python \<^verbatim>\<open>str\<close> values, here \<^typ>\<open>string\<close>.
\<close>

type_synonym path = string

subsection \<open>Formatting an integer: \<^verbatim>\<open>str(n)\<close> and \<^verbatim>\<open>f'{n}'\<close>\<close>

definition digit_char :: "nat \<Rightarrow> char" where
  "digit_char d = ''0123456789'' ! (d mod 10)"

fun str_nat :: "nat \<Rightarrow> string" where
  "str_nat n = (if n < 10 then [digit_char n] else str_nat (n div 10) @ [digit_char (n mod 10)])"

declare str_nat.simps [simp del]

definition str_int :: "int \<Rightarrow> string" where
  "str_int i = (if i < 0 then CHR ''-'' # str_nat (nat (- i)) else str_nat (nat i))"

subsection \<open>\<^verbatim>\<open>str.replace(old, new)\<close>\<close>

text \<open>
  Python replaces the non-overlapping occurrences of \<open>old\<close>, found from left to right.
  For an empty \<open>old\<close> it inserts \<open>new\<close> before every character and at the end.
\<close>

function str_replace :: "string \<Rightarrow> string \<Rightarrow> string \<Rightarrow> string" where
  "str_replace old new s =
     (if old = [] then new @ concat (map (\<lambda>c. c # new) s)
      else if s = [] then []
      else if prefix old s then new @ str_replace old new (drop (length old) s)
      else hd s # str_replace old new (tl s))"
  by pat_completeness auto
termination
  by (relation "measure (\<lambda>(old, new, s). length s)") auto

declare str_replace.simps [simp del]

subsection \<open>\<^verbatim>\<open>os.path.dirname\<close> (posixpath)\<close>

text \<open>
  \<^verbatim>\<open>i = p.rfind('/') + 1; head = p[:i]\<close>, and unless \<open>head\<close> is empty or consists of
  slashes only, \<^verbatim>\<open>head = head.rstrip('/')\<close>.
\<close>

definition rstrip_sep :: "string \<Rightarrow> string" where
  "rstrip_sep s = rev (dropWhile (\<lambda>c. c = CHR ''/'') (rev s))"

definition os_path_dirname :: "path \<Rightarrow> path" where
  "os_path_dirname p =
     (let head = rev (dropWhile (\<lambda>c. c \<noteq> CHR ''/'') (rev p))
      in if head \<noteq> [] \<and> head \<noteq> replicate (length head) CHR ''/'' then rstrip_sep head else head)"

subsection \<open>The filesystem and the process environment\<close>

text \<open>
  The filesystem is a flat namespace: a map from path strings to file contents; two
  different strings name two different files. Directories, permissions and whatever else
  can make the operating system refuse a call are not part of that map: they are the
  component \<open>denied\<close> of the world, which gives, for a call, the exception it is refused
  with (\<^verbatim>\<open>FileNotFoundError\<close> for a missing directory, \<^verbatim>\<open>IsADirectoryError\<close> for a path that
  names a directory, \<^verbatim>\<open>PermissionError\<close>, ...). What the calls did is recorded, in order, in
  a log of events, so that the order of the effects can be stated.

  A call either raises (\<open>Inl\<close>) or returns (\<open>Inr\<close>), and yields the world it leaves; a call
  that raises leaves the world as it was.
\<close>

datatype exn =
    FileNotFoundError
  | IsADirectoryError
  | NotADirectoryError
  | PermissionError
  | CalledProcessError int

datatype syscall =
    Open path
  | Rename path path
  | Remove path

datatype event =
    Wrote path string
  | Ran "string list"
  | Renamed path path
  | Removed path
  | Printed string

record world =
  files :: "path \<rightharpoonup> string"
  denied :: "syscall \<rightharpoonup> exn"
  events :: "event list"

definition log :: "event \<Rightarrow> world \<Rightarrow> world" where
  "log e w = w\<lparr>events := events w @ [e]\<rparr>"

text \<open>The empty path names no file.\<close>

definition file_at :: "world \<Rightarrow> path \<Rightarrow> string option" where
  "file_at w p = (if p = [] then None else files w p)"

text \<open>
  \<^verbatim>\<open>with open(p, 'w') as f: f.write(content)\<close> creates or truncates the file. Opening the
  empty path raises \<^verbatim>\<open>FileNotFoundError\<close>; any other path can be refused.
\<close>

definition open_write :: "path \<Rightarrow> string \<Rightarrow> world \<Rightarrow> (exn + unit) \<times> world" where
  "open_write p content w =
     (if p = [] then (Inl FileNotFoundError, w)
      else case denied w (Open p) of
        Some e \<Rightarrow> (Inl e, w)
      | None \<Rightarrow> (Inr (), log (Wrote p content) (w\<lparr>files := (files w)(p \<mapsto> content)\<rparr>)))"

definition os_path_exists :: "path \<Rightarrow> world \<Rightarrow> bool" where
  "os_path_exists p w = (file_at w p \<noteq> None)"

text \<open>
  \<^verbatim>\<open>os.rename(src, dst)\<close> raises \<^verbatim>\<open>FileNotFoundError\<close> when \<open>src\<close> does not exist. Renaming an
  existing file to itself succeeds and changes nothing. Otherwise the call can be refused
  (the destination is a directory, lies in a missing directory, may not be written); when
  it is not, \<open>dst\<close> is replaced by the file.
\<close>

definition os_rename :: "path \<Rightarrow> path \<Rightarrow> world \<Rightarrow> (exn + unit) \<times> world" where
  "os_rename src dst w =
     (case file_at w src of
        None \<Rightarrow> (Inl FileNotFoundError, w)
      | Some content \<Rightarrow>
          if src = dst then (Inr (), log (Renamed src dst) w)
          else if dst = [] then (Inl FileNotFoundError, w)
          else case denied w (Rename src dst) of
            Some e \<Rightarrow> (Inl e, w)
          | None \<Rightarrow>
              (Inr (), log (Renamed src dst)
                 (w\<lparr>files := ((files w)(src := None))(dst \<mapsto> content)\<rparr>)))"

text \<open>
  \<^verbatim>\<open>os.remove(p)\<close> raises \<^verbatim>\<open>FileNotFoundError\<close> when \<open>p\<close> does not exist, and can be refused.
\<close>

definition os_remove :: "path \<Rightarrow> world \<Rightarrow> (exn + unit) \<times> world" where
  "os_remove p w =
     (case file_at w p of
        None \<Rightarrow> (Inl FileNotFoundError, w)
      | Some content \<Rightarrow>
          (case denied w (Remove p) of
             Some e \<Rightarrow> (Inl e, w)
           | None \<Rightarrow> (Inr (), log (Removed p) (w\<lparr>files := (files w)(p := None)\<rparr>))))"

definition print_line :: "string \<Rightarrow> world \<Rightarrow> world" where
  "print_line s w = log (Printed s) w"

text \<open>
  What running a command does is a parameter of the model: given the argument vector
  and the files present, either the process cannot be started (the executable is not
  found, or may not be executed), or it runs, writes (creates or overwrites) some files,
  removes some, and exits with a status. Where it does both to a path, the path is gone.
\<close>

datatype proc = NotStarted exn | Exited int "path \<rightharpoonup> string" "path set"

type_synonym env = "string list \<Rightarrow> (path \<rightharpoonup> string) \<Rightarrow> proc"

definition effect :: "(path \<rightharpoonup> string) \<Rightarrow> path set \<Rightarrow> (path \<rightharpoonup> string) \<Rightarrow> (path \<rightharpoonup> string)" where
  "effect written removed fs = (\<lambda>q. if q \<in> removed then None else (fs ++ written) q)"

text \<open>
  \<^verbatim>\<open>subprocess.run(argv, capture_output=True, check=True)\<close>: a process that cannot be started
  raises, a non-zero exit status raises \<^verbatim>\<open>CalledProcessError\<close> after the process has run.
\<close>

definition subprocess_run :: "env \<Rightarrow> string list \<Rightarrow> world \<Rightarrow> (exn + unit) \<times> world" where
  "subprocess_run env argv w =
     (case env argv (files w) of
        NotStarted e \<Rightarrow> (Inl e, w)
      | Exited rc written removed \<Rightarrow>
          (let w' = log (Ran argv) (w\<lparr>files := effect written removed (files w)\<rparr>)
           in if rc \<noteq> 0 then (Inl (CalledProcessError rc), w') else (Inr (), w')))"

section \<open>\<^verbatim>\<open>create_background\<close>\<close>

subsection \<open>The SVG document (lines 11 to 43)\<close>

definition svg_content :: "int \<Rightarrow> int \<Rightarrow> string" where
  \<open>svg_content width height =
    ''<?xml version="1.0" encoding="UTF-8"?>\<newline>'' @
    ''<svg width="'' @ str_int width @ ''" height="'' @ str_int height @
      ''" xmlns="http://www.w3.org/2000/svg">\<newline>'' @
    ''  <!-- Background gradient -->\<newline>'' @
    ''  <defs>\<newline>'' @
    ''    <linearGradient id="bg" x1="0%" y1="0%" x2="0%" y2="100%">\<newline>'' @
    ''      <stop offset="0%" style="stop-color:#2d2d2d"/>\<newline>'' @
    ''      <stop offset="100%" style="stop-color:#1a1a1a"/>\<newline>'' @
    ''    </linearGradient>\<newline>'' @
    ''  </defs>\<newline>'' @
    ''  <rect width="'' @ str_int width @ ''" height="'' @ str_int height @
      ''" fill="url(#bg)"/>\<newline>'' @
    ''  \<newline>'' @
    ''  <!-- Arrow pointing from app to Applications -->\<newline>'' @
    ''  <defs>\<newline>'' @
    ''    <marker id="arrowhead" markerWidth="10" markerHeight="7" refX="9" refY="3.5" orient="auto">\<newline>'' @
    ''      <polygon points="0 0, 10 3.5, 0 7" fill="#888888"/>\<newline>'' @
    ''    </marker>\<newline>'' @
    ''  </defs>\<newline>'' @
    ''  \<newline>'' @
    ''  <!-- Arrow line -->\<newline>'' @
    ''  <line x1="380" y1="200" x2="220" y2="200" \<newline>'' @
    ''        stroke="#888888" stroke-width="3" \<newline>'' @
    ''        marker-end="url(#arrowhead)"\<newline>'' @
    ''        stroke-dasharray="10,5"/>\<newline>'' @
    ''  \<newline>'' @
    ''  <!-- Instruction text -->\<newline>'' @
    ''  <text x="'' @ str_int (width div 2) @ ''" y="340" \<newline>'' @
    ''        font-family="SF Pro Display, Helvetica Neue, Arial" \<newline>'' @
    ''        font-size="16" \<newline>'' @
    ''        fill="#999999" \<newline>'' @
    ''        text-anchor="middle">\<newline>'' @
    ''    Drag Extremis to Applications to install\<newline>'' @
    ''  </text>\<newline>'' @
    ''</svg>''\<close>

subsection \<open>The paths (lines 45 and 60) and the command line (lines 54 to 57)\<close>

definition svg_path :: "path \<Rightarrow> path" where
  "svg_path output_path = str_replace ''.png'' ''.svg'' output_path"

definition generated :: "path \<Rightarrow> path" where
  "generated output_path = svg_path output_path @ ''.png''"

definition qlmanage_argv :: "path \<Rightarrow> int \<Rightarrow> int \<Rightarrow> string list" where
  "qlmanage_argv output_path width height =
     [''qlmanage'', ''-t'', ''-s'', str_int (max width height), ''-o'',
      (if os_path_dirname output_path = [] then ''.'' else os_path_dirname output_path),
      svg_path output_path]"

subsection \<open>The body of the \<^verbatim>\<open>try\<close> statement (lines 54 to 64)\<close>

text \<open>
  The body raises, or executes \<^verbatim>\<open>return True\<close> (\<open>Inr (Some True)\<close>), or runs to its
  end without returning (\<open>Inr None\<close>) when the generated file does not exist.
\<close>

definition try_convert :: "env \<Rightarrow> path \<Rightarrow> int \<Rightarrow> int \<Rightarrow> world \<Rightarrow> (exn + bool option) \<times> world" where
  "try_convert env output_path width height w =
     (case subprocess_run env (qlmanage_argv output_path width height) w of
        (Inl e, w1) \<Rightarrow> (Inl e, w1)
      | (Inr _, w1) \<Rightarrow>
          if os_path_exists (generated output_path) w1 then
            (case os_rename (generated output_path) output_path w1 of
               (Inl e, w2) \<Rightarrow> (Inl e, w2)
             | (Inr _, w2) \<Rightarrow>
                 (case os_remove (svg_path output_path) w2 of
                    (Inl e, w3) \<Rightarrow> (Inl e, w3)
                  | (Inr _, w3) \<Rightarrow> (Inr (Some True), w3)))
          else (Inr None, w1))"

subsection \<open>The fallback (lines 69 to 71)\<close>

definition fallback :: "path \<Rightarrow> world \<Rightarrow> (exn + bool) \<times> world" where
  "fallback output_path w =
     (case os_rename (svg_path output_path) (str_replace ''.png'' ''.svg'' output_path) w of
        (Inl e, w1) \<Rightarrow> (Inl e, w1)
      | (Inr _, w1) \<Rightarrow>
          (Inr False, print_line ''Created SVG background (PNG conversion not available)'' w1))"

subsection \<open>The function (lines 7 to 71)\<close>

text \<open>
  The write of the SVG (lines 48 and 49) and the fallback stand outside the \<^verbatim>\<open>try\<close>
  statement; the bare \<^verbatim>\<open>except: pass\<close> (lines 65 and 66) discards whatever the body
  raised and control continues with the fallback.
\<close>

definition create_background :: "env \<Rightarrow> path \<Rightarrow> int \<Rightarrow> int \<Rightarrow> world \<Rightarrow> (exn + bool) \<times> world" where
  "create_background env output_path width height w =
     (case open_write (svg_path output_path) (svg_content width height) w of
        (Inl e, w1) \<Rightarrow> (Inl e, w1)
      | (Inr _, w1) \<Rightarrow>
          (case try_convert env output_path width height w1 of
             (Inr (Some b), w2) \<Rightarrow> (Inr b, w2)
           | (Inr None, w2) \<Rightarrow> fallback output_path w2
           | (Inl e, w2) \<Rightarrow> fallback output_path w2))"

section \<open>Notions used to state the properties\<close>

text \<open>
  The document is a string, so its elements are located by scanning: \<open>count_occ p s\<close>
  counts the positions of \<open>s\<close> at which \<open>p\<close> occurs, and \<open>element opening closing s\<close>
  is the text from the first occurrence of \<open>opening\<close> up to and including the next
  occurrence of \<open>closing\<close>.
\<close>

fun count_occ :: "string \<Rightarrow> string \<Rightarrow> nat" where
  "count_occ p [] = (if p = [] then 1 else 0)"
| "count_occ p (c # s) = (if prefix p (c # s) then 1 else 0) + count_occ p s"

fun drop_until :: "string \<Rightarrow> string \<Rightarrow> string" where
  "drop_until p [] = []"
| "drop_until p (c # s) = (if prefix p (c # s) then c # s else drop_until p s)"

fun take_through :: "string \<Rightarrow> string \<Rightarrow> string" where
  "take_through p [] = []"
| "take_through p (c # s) = (if prefix p (c # s) then p else c # take_through p s)"

definition element :: "string \<Rightarrow> string \<Rightarrow> string \<Rightarrow> string" where
  "element opening closing doc = take_through closing (drop_until opening doc)"

text \<open>
  The value of an attribute of an element is the text between the first \<open> name="\<close> and
  the next double quote. A decimal numeral is read back as the integer it denotes by
  \<open>read_int\<close>, which accepts digits with an optional leading minus sign.
\<close>

definition attribute :: "string \<Rightarrow> string \<Rightarrow> string" where
  "attribute name elem =
     takeWhile (\<lambda>c. c \<noteq> CHR 0x22)
       (drop (length name + 3) (drop_until ('' '' @ name @ [CHR ''='', CHR 0x22]) elem))"

definition digit_val :: "char \<Rightarrow> nat option" where
  "digit_val = map_of (zip ''0123456789'' [0, 1, 2, 3, 4, 5, 6, 7, 8, 9])"

fun read_nat :: "nat \<Rightarrow> string \<Rightarrow> nat option" where
  "read_nat acc [] = Some acc"
| "read_nat acc (c # cs) =
     (case digit_val c of None \<Rightarrow> None | Some d \<Rightarrow> read_nat (10 * acc + d) cs)"

definition read_int :: "string \<Rightarrow> int option" where
  "read_int s =
     (if s = [] \<or> s = ''-'' then None
      else if hd s = CHR ''-'' then map_option (\<lambda>n. - int n) (read_nat 0 (tl s))
      else map_option int (read_nat 0 s))"

text \<open>
  Two notions for the proofs: \<open>straddles p a\<close> holds when a non-empty end of \<open>a\<close> is a
  proper beginning of \<open>p\<close>, so that an occurrence of \<open>p\<close> could start in \<open>a\<close> and end in
  what follows it; \<open>num_char\<close> holds of the characters that \<open>str_int\<close> produces.
\<close>

fun straddles :: "string \<Rightarrow> string \<Rightarrow> bool" where
  "straddles p [] = False"
| "straddles p (x # a) = ((length (x # a) < length p \<and> prefix (x # a) p) \<or> straddles p a)"

definition num_char :: "char \<Rightarrow> bool" where
  "num_char c = (c \<in> set ''-0123456789'')"

section \<open>Facts about the library functions\<close>

subsection \<open>\<^verbatim>\<open>str.replace\<close>\<close>

lemma str_replace_Nil: "old \<noteq> [] \<Longrightarrow> str_replace old new [] = []"
  by (simp add: str_replace.simps)

lemma str_replace_match: "old \<noteq> [] \<Longrightarrow> str_replace old new (old @ s) = new @ str_replace old new s"
  by (subst str_replace.simps) simp

lemma str_replace_skip:
  "old \<noteq> [] \<Longrightarrow> \<not> prefix old (c # s) \<Longrightarrow> str_replace old new (c # s) = c # str_replace old new s"
  by (subst str_replace.simps) simp

lemma length_str_replace:
  "old \<noteq> [] \<Longrightarrow> length new = length old \<Longrightarrow> length (str_replace old new s) = length s"
proof (induction old new s rule: str_replace.induct)
  case (1 old new s)
  show ?case
  proof (cases "s = []")
    case True
    with 1 show ?thesis by (simp add: str_replace_Nil)
  next
    case False
    show ?thesis
    proof (cases "prefix old s")
      case True
      then obtain t where t: "s = old @ t" by (auto simp: prefix_def)
      with 1 False True show ?thesis by (simp add: str_replace_match)
    next
      case np: False
      from False obtain c t where "s = c # t" by (cases s) auto
      with 1 np show ?thesis by (simp add: str_replace_skip)
    qed
  qed
qed

lemma prefix_png_append:
  "prefix ''.png'' (a @ ''.png'') \<longleftrightarrow> a = [] \<or> prefix ''.png'' a"
proof (cases a)
  case Nil
  then show ?thesis by simp
next
  case c1: (Cons c1 a1)
  show ?thesis
  proof (cases a1)
    case Nil
    with c1 show ?thesis by simp
  next
    case c2: (Cons c2 a2)
    show ?thesis
    proof (cases a2)
      case Nil
      with c1 c2 show ?thesis by simp
    next
      case c3: (Cons c3 a3)
      show ?thesis
      proof (cases a3)
        case Nil
        with c1 c2 c3 show ?thesis by simp
      next
        case (Cons c4 a4)
        with c1 c2 c3 show ?thesis by simp
      qed
    qed
  qed
qed

lemma svg_path_append_png:
  "str_replace ''.png'' ''.svg'' (a @ ''.png'') = str_replace ''.png'' ''.svg'' a @ ''.svg''"
proof (induction a rule: length_induct)
  case (1 a)
  show ?case
  proof (cases a)
    case Nil
    have "str_replace ''.png'' ''.svg'' (''.png'' @ []) = ''.svg'' @ str_replace ''.png'' ''.svg'' []"
      by (rule str_replace_match) simp
    with Nil show ?thesis by (simp add: str_replace_Nil)
  next
    case (Cons c t)
    show ?thesis
    proof (cases "prefix ''.png'' a")
      case True
      then obtain r where r: "a = ''.png'' @ r" by (auto simp: prefix_def)
      have "length r < length a" using r by simp
      with 1 have IH: "str_replace ''.png'' ''.svg'' (r @ ''.png'') = str_replace ''.png'' ''.svg'' r @ ''.svg''"
        by blast
      have "str_replace ''.png'' ''.svg'' (''.png'' @ (r @ ''.png'')) = ''.svg'' @ str_replace ''.png'' ''.svg'' (r @ ''.png'')"
        by (rule str_replace_match) simp
      moreover have "str_replace ''.png'' ''.svg'' (''.png'' @ r) = ''.svg'' @ str_replace ''.png'' ''.svg'' r"
        by (rule str_replace_match) simp
      ultimately show ?thesis using IH r by simp
    next
      case False
      with Cons have np: "\<not> prefix ''.png'' (c # t @ ''.png'')"
        using prefix_png_append[of a] by simp
      have "length t < length a" using Cons by simp
      with 1 have IH: "str_replace ''.png'' ''.svg'' (t @ ''.png'') = str_replace ''.png'' ''.svg'' t @ ''.svg''"
        by blast
      have "str_replace ''.png'' ''.svg'' (c # (t @ ''.png'')) = c # str_replace ''.png'' ''.svg'' (t @ ''.png'')"
        using np by (intro str_replace_skip) simp_all
      moreover have "str_replace ''.png'' ''.svg'' (c # t) = c # str_replace ''.png'' ''.svg'' t"
        using False Cons by (intro str_replace_skip) simp_all
      ultimately show ?thesis using IH Cons by simp
    qed
  qed
qed

subsection \<open>Digits and scanning\<close>

lemma num_char_digit: "num_char (digit_char d)"
  unfolding num_char_def digit_char_def
  by (rule subsetD[OF set_subset_Cons nth_mem]) simp

lemma num_char_minus: "num_char CHR ''-''"
  by (simp add: num_char_def)

lemma str_nat_chars: "c \<in> set (str_nat n) \<Longrightarrow> num_char c"
proof (induction n rule: str_nat.induct)
  case (1 n)
  show ?case
  proof (cases "n < 10")
    case True
    then have "str_nat n = [digit_char n]" by (subst str_nat.simps) simp
    with 1(2) show ?thesis by (simp add: num_char_digit)
  next
    case False
    then have "str_nat n = str_nat (n div 10) @ [digit_char (n mod 10)]"
      by (subst str_nat.simps) simp
    with 1 False show ?thesis by (auto simp: num_char_digit)
  qed
qed

lemma str_int_chars: "c \<in> set (str_int i) \<Longrightarrow> num_char c"
  by (auto simp: str_int_def num_char_minus dest: str_nat_chars split: if_splits)

lemma count_occ_skip: "c \<notin> set d \<Longrightarrow> count_occ (c # p) (d @ s) = count_occ (c # p) s"
  by (induction d) auto

lemma drop_until_skip: "c \<notin> set d \<Longrightarrow> drop_until (c # p) (d @ s) = drop_until (c # p) s"
  by (induction d) auto

lemma take_through_skip: "c \<notin> set d \<Longrightarrow> take_through (c # p) (d @ s) = d @ take_through (c # p) s"
  by (induction d) auto

lemma count_occ_str_int:
  "\<not> num_char c \<Longrightarrow> count_occ (c # p) (str_int i @ s) = count_occ (c # p) s"
  by (rule count_occ_skip) (blast dest: str_int_chars)

lemma drop_until_str_int:
  "\<not> num_char c \<Longrightarrow> drop_until (c # p) (str_int i @ s) = drop_until (c # p) s"
  by (rule drop_until_skip) (blast dest: str_int_chars)

lemma take_through_str_int:
  "\<not> num_char c \<Longrightarrow> take_through (c # p) (str_int i @ s) = str_int i @ take_through (c # p) s"
  by (rule take_through_skip) (blast dest: str_int_chars)

lemma count_occ_in_str_int: "\<not> num_char c \<Longrightarrow> count_occ (c # p) (str_int i) = 0"
  using count_occ_str_int[of c p i "[]"] by simp

lemma hit_within:
  assumes "\<not> (length a < length p \<and> prefix a p)"
  shows "prefix p (a @ b) = prefix p a"
proof (cases "length p \<le> length a")
  case True
  then show ?thesis by (auto simp: prefix_append)
next
  case False
  with assms have np: "\<not> prefix a p" by simp
  have "\<not> prefix p a" using False by (auto dest: prefix_length_le)
  moreover have "\<not> prefix p (a @ b)"
  proof
    assume "prefix p (a @ b)"
    moreover have "prefix a (a @ b)" by simp
    ultimately have "prefix a p \<or> prefix p a" using prefix_same_cases by blast
    with np \<open>\<not> prefix p a\<close> show False by simp
  qed
  ultimately show ?thesis by simp
qed

lemma count_occ_append:
  "p \<noteq> [] \<Longrightarrow> \<not> straddles p a \<Longrightarrow> count_occ p (a @ b) = count_occ p a + count_occ p b"
proof (induction a)
  case Nil
  then show ?case by simp
next
  case (Cons x a)
  then have "prefix p ((x # a) @ b) = prefix p (x # a)"
    by (intro hit_within) simp
  with Cons show ?case by simp
qed

lemma drop_until_append:
  "p \<noteq> [] \<Longrightarrow> \<not> straddles p a \<Longrightarrow>
   drop_until p (a @ b) = (if count_occ p a = 0 then drop_until p b else drop_until p a @ b)"
proof (induction a)
  case Nil
  then show ?case by simp
next
  case (Cons x a)
  then have "prefix p ((x # a) @ b) = prefix p (x # a)"
    by (intro hit_within) simp
  with Cons show ?case by simp
qed

lemma take_through_append:
  "p \<noteq> [] \<Longrightarrow> \<not> straddles p a \<Longrightarrow>
   take_through p (a @ b) = (if count_occ p a = 0 then a @ take_through p b else take_through p a)"
proof (induction a)
  case Nil
  then show ?case by simp
next
  case (Cons x a)
  then have "prefix p ((x # a) @ b) = prefix p (x # a)"
    by (intro hit_within) simp
  with Cons show ?case by simp
qed

lemmas scan_simps = count_occ_str_int drop_until_str_int take_through_str_int num_char_def
  count_occ_in_str_int count_occ_append drop_until_append take_through_append

section \<open>The generated document\<close>

lemma count_svg: "count_occ ''<svg'' (svg_content w h) = 1"
  unfolding svg_content_def
  by (simp add: scan_simps del: append.simps(2))

lemma count_gradient: "count_occ ''<linearGradient'' (svg_content w h) = 1"
  unfolding svg_content_def
  by (simp add: scan_simps del: append.simps(2))

lemma count_marker: \<open>count_occ ''<marker id="arrowhead"'' (svg_content w h) = 1\<close>
  unfolding svg_content_def
  by (simp add: scan_simps del: append.simps(2))

lemma count_marker_tag: \<open>count_occ ''<marker'' (svg_content w h) = 1\<close>
  unfolding svg_content_def
  by (simp add: scan_simps del: append.simps(2))

lemma count_line: \<open>count_occ ''<line '' (svg_content w h) = 1\<close>
  unfolding svg_content_def
  by (simp add: scan_simps del: append.simps(2))

lemma count_text: \<open>count_occ ''<text'' (svg_content w h) = 1\<close>
  unfolding svg_content_def
  by (simp add: scan_simps del: append.simps(2))

lemma svg_element: \<open>element ''<svg'' ''>'' (svg_content w h) =
   ''<svg width="'' @ str_int w @ ''" height="'' @ str_int h @ ''" xmlns="http://www.w3.org/2000/svg">''\<close>
  unfolding svg_content_def element_def
  by (simp add: scan_simps del: append.simps(2))

lemma line_element: \<open>element ''<line '' ''/>'' (svg_content w h) =
   ''<line x1="380" y1="200" x2="220" y2="200" \<newline>'' @
   ''        stroke="#888888" stroke-width="3" \<newline>'' @
   ''        marker-end="url(#arrowhead)"\<newline>'' @
   ''        stroke-dasharray="10,5"/>''\<close>
  unfolding svg_content_def element_def
  by (simp add: scan_simps del: append.simps(2))

lemma text_element: \<open>element ''<text'' ''</text>'' (svg_content w h) =
    ''<text x="'' @ str_int (w div 2) @ ''" y="340" \<newline>'' @
    ''        font-family="SF Pro Display, Helvetica Neue, Arial" \<newline>'' @
    ''        font-size="16" \<newline>'' @
    ''        fill="#999999" \<newline>'' @
    ''        text-anchor="middle">\<newline>'' @
    ''    Drag Extremis to Applications to install\<newline>'' @
    ''  </text>''\<close>
  unfolding svg_content_def element_def
  by (simp add: scan_simps del: append.simps(2))

lemma doc_prefix:
  \<open>prefix ''<?xml version="1.0" encoding="UTF-8"?>\<newline><svg '' (svg_content w h)\<close>
  unfolding svg_content_def by simp

lemma doc_close: \<open>drop_until ''</svg>'' (svg_content w h) = ''</svg>''\<close>
  unfolding svg_content_def
  by (simp add: scan_simps del: append.simps(2))


lemma digit_val_digit_char: "digit_val (digit_char d) = Some (d mod 10)"
proof -
  have "\<forall>k<10. digit_val (''0123456789'' ! k) = Some k"
    by (simp add: digit_val_def All_less_Suc eval_nat_numeral)
  then show ?thesis by (simp add: digit_char_def)
qed

lemma read_nat_snoc:
  "read_nat acc (xs @ [c]) =
     (case read_nat acc xs of None \<Rightarrow> None
      | Some m \<Rightarrow> (case digit_val c of None \<Rightarrow> None | Some d \<Rightarrow> Some (10 * m + d)))"
  by (induction xs arbitrary: acc) (auto split: option.splits)

lemma read_nat_str_nat: "read_nat 0 (str_nat n) = Some n"
proof (induction n rule: str_nat.induct)
  case (1 n)
  show ?case
  proof (cases "n < 10")
    case True
    then have "str_nat n = [digit_char n]" by (subst str_nat.simps) simp
    with True show ?thesis by (simp add: digit_val_digit_char)
  next
    case False
    then have "str_nat n = str_nat (n div 10) @ [digit_char (n mod 10)]"
      by (subst str_nat.simps) simp
    with 1 False show ?thesis by (simp add: read_nat_snoc digit_val_digit_char)
  qed
qed

lemma str_nat_starts_with_digit: "\<exists>c cs. str_nat n = c # cs \<and> c \<noteq> CHR ''-''"
proof (cases "str_nat n")
  case Nil
  then show ?thesis by (subst (asm) str_nat.simps) (simp split: if_splits)
next
  case (Cons c cs)
  with read_nat_str_nat[of n] have "digit_val c \<noteq> None" by (auto split: option.splits)
  then have "c \<noteq> CHR ''-''" by (auto simp: digit_val_def)
  with Cons show ?thesis by simp
qed

lemma read_int_str_int: "read_int (str_int i) = Some i"
proof (cases "i < 0")
  case True
  obtain c cs where "str_nat (nat (- i)) = c # cs" using str_nat_starts_with_digit by blast
  with True read_nat_str_nat[of "nat (- i)"] show ?thesis
    by (simp add: read_int_def str_int_def)
next
  case False
  obtain c cs where "str_nat (nat i) = c # cs" "c \<noteq> CHR ''-''"
    using str_nat_starts_with_digit by blast
  with False read_nat_str_nat[of "nat i"] show ?thesis
    by (simp add: read_int_def str_int_def)
qed

lemma takeWhile_str_int:
  "takeWhile (\<lambda>c. c \<noteq> CHR 0x22) (str_int i @ CHR 0x22 # s) = str_int i"
proof -
  have "\<And>x. x \<in> set (str_int i) \<Longrightarrow> x \<noteq> CHR 0x22"
    using str_int_chars by (auto simp: num_char_def)
  then show ?thesis by (simp add: takeWhile_append2)
qed

lemma svg_width_attribute:
  "attribute ''width'' (element ''<svg'' ''>'' (svg_content w h)) = str_int w"
  unfolding svg_element attribute_def
  by (simp add: scan_simps takeWhile_str_int)

lemma svg_height_attribute:
  "attribute ''height'' (element ''<svg'' ''>'' (svg_content w h)) = str_int h"
  unfolding svg_element attribute_def
  by (simp add: scan_simps takeWhile_str_int)

lemma text_x_attribute:
  "attribute ''x'' (element ''<text'' ''</text>'' (svg_content w h)) = str_int (w div 2)"
  unfolding text_element attribute_def
  by (simp add: scan_simps takeWhile_str_int)

lemma text_y_attribute:
  "attribute ''y'' (element ''<text'' ''</text>'' (svg_content w h)) = ''340''"
  unfolding text_element attribute_def
  by (simp add: scan_simps takeWhile_str_int)

lemma text_anchor_attribute:
  "attribute ''text-anchor'' (element ''<text'' ''</text>'' (svg_content w h)) = ''middle''"
  unfolding text_element attribute_def
  by (simp add: scan_simps takeWhile_str_int)

section \<open>The paths and the filesystem\<close>

lemma svg_path_png: "svg_path (base @ ''.png'') = svg_path base @ ''.svg''"
  by (simp add: svg_path_def svg_path_append_png)

lemma length_svg_path: "length (svg_path p) = length p"
  by (simp add: svg_path_def length_str_replace)

lemma svg_path_neq: "svg_path (base @ ''.png'') \<noteq> base @ ''.png''"
proof
  assume "svg_path (base @ ''.png'') = base @ ''.png''"
  then have "svg_path base @ ''.svg'' = base @ ''.png''" by (simp add: svg_path_png)
  moreover have "length (svg_path base) = length base" by (rule length_svg_path)
  ultimately show False by simp
qed

lemma generated_neq_svg: "generated p \<noteq> svg_path p"
  by (simp add: generated_def)

lemma generated_neq_out: "generated p \<noteq> p"
proof
  assume "generated p = p"
  then have "length (generated p) = length p" by simp
  then show False by (simp add: generated_def length_svg_path)
qed

lemma generated_nonempty: "generated p \<noteq> []"
  by (simp add: generated_def)

lemma file_at_log [simp]: "file_at (log e w) p = file_at w p"
  by (simp add: file_at_def log_def)

lemma files_log [simp]: "files (log e w) = files w"
  by (simp add: log_def)

lemma svg_path_nonempty: "p \<noteq> [] \<Longrightarrow> svg_path p \<noteq> []"
  using length_svg_path[of p] by auto

lemma str_replace_absent:
  "old \<noteq> [] \<Longrightarrow> count_occ old s = 0 \<Longrightarrow> str_replace old new s = s"
proof (induction s)
  case Nil
  then show ?case by (simp add: str_replace_Nil)
next
  case (Cons c s)
  from Cons.prems have np: "\<not> prefix old (c # s)" and rest: "count_occ old s = 0"
    by (auto split: if_splits)
  with Cons show ?case by (simp add: str_replace_skip)
qed

lemma svg_path_absent: "count_occ ''.png'' s = 0 \<Longrightarrow> svg_path s = s"
  unfolding svg_path_def by (rule str_replace_absent) simp_all

lemma str_replace_head:
  assumes "str_replace ''.png'' ''.svg'' t = x # r" "x \<noteq> CHR ''.''"
  shows "\<exists>t'. t = x # t' \<and> str_replace ''.png'' ''.svg'' t' = r"
proof (cases t)
  case Nil
  with assms show ?thesis by (simp add: str_replace_Nil)
next
  case (Cons c t')
  show ?thesis
  proof (cases "prefix ''.png'' t")
    case True
    then obtain u where "t = ''.png'' @ u" by (auto simp: prefix_def)
    then have "str_replace ''.png'' ''.svg'' t = ''.svg'' @ str_replace ''.png'' ''.svg'' u"
      using str_replace_match[of "''.png''" "''.svg''" u] by simp
    with assms show ?thesis by simp
  next
    case False
    with Cons have "str_replace ''.png'' ''.svg'' t = c # str_replace ''.png'' ''.svg'' t'"
      by (simp add: str_replace_skip)
    with assms Cons show ?thesis by simp
  qed
qed

lemma str_replace_no_new_match:
  assumes "prefix ''png'' (str_replace ''.png'' ''.svg'' t)"
  shows "prefix ''png'' t"
proof -
  from assms obtain r where r: "str_replace ''.png'' ''.svg'' t = CHR ''p'' # CHR ''n'' # CHR ''g'' # r"
    by (auto simp: prefix_def)
  from str_replace_head[OF r] obtain t1 where
    t1: "t = CHR ''p'' # t1" "str_replace ''.png'' ''.svg'' t1 = CHR ''n'' # CHR ''g'' # r" by auto
  from str_replace_head[OF t1(2)] obtain t2 where
    t2: "t1 = CHR ''n'' # t2" "str_replace ''.png'' ''.svg'' t2 = CHR ''g'' # r" by auto
  from str_replace_head[OF t2(2)] obtain t3 where
    t3: "t2 = CHR ''g'' # t3" by auto
  from t1 t2 t3 show ?thesis by simp
qed

lemma count_occ_svg_path: "count_occ ''.png'' (svg_path s) = 0"
  unfolding svg_path_def
proof (induction s rule: length_induct)
  case (1 s)
  show ?case
  proof (cases s)
    case Nil
    then show ?thesis by (simp add: str_replace_Nil)
  next
    case (Cons c t)
    show ?thesis
    proof (cases "prefix ''.png'' s")
      case True
      then obtain u where u: "s = ''.png'' @ u" by (auto simp: prefix_def)
      then have "length u < length s" by simp
      with 1 have "count_occ ''.png'' (str_replace ''.png'' ''.svg'' u) = 0" by blast
      moreover have "str_replace ''.png'' ''.svg'' s = ''.svg'' @ str_replace ''.png'' ''.svg'' u"
        using str_replace_match[of "''.png''" "''.svg''" u] u by simp
      moreover have "count_occ ''.png'' (''.svg'' @ str_replace ''.png'' ''.svg'' u)
          = count_occ ''.png'' ''.svg'' + count_occ ''.png'' (str_replace ''.png'' ''.svg'' u)"
        by (rule count_occ_append) simp_all
      ultimately show ?thesis by simp
    next
      case False
      with Cons have eq: "str_replace ''.png'' ''.svg'' s = c # str_replace ''.png'' ''.svg'' t"
        by (simp add: str_replace_skip)
      have "length t < length s" using Cons by simp
      with 1 have IH: "count_occ ''.png'' (str_replace ''.png'' ''.svg'' t) = 0" by blast
      have "\<not> prefix ''.png'' (c # str_replace ''.png'' ''.svg'' t)"
      proof
        assume a: "prefix ''.png'' (c # str_replace ''.png'' ''.svg'' t)"
        then have both: "CHR ''.'' = c \<and> prefix ''png'' (str_replace ''.png'' ''.svg'' t)"
          by (rule Cons_prefix_Cons[THEN iffD1])
        then have c: "c = CHR ''.''" by (rule conjunct1[THEN sym])
        from both have "prefix ''png'' (str_replace ''.png'' ''.svg'' t)" by (rule conjunct2)
        then have "prefix ''png'' t" by (rule str_replace_no_new_match)
        with c Cons False show False by simp
      qed
      with eq IH show ?thesis by simp
    qed
  qed
qed

lemma denied_log [simp]: "denied (log e w) = denied w"
  by (simp add: log_def)

lemma svg_path_empty_iff: "svg_path p = [] \<longleftrightarrow> p = []"
  using length_svg_path[of p] by auto

lemma open_write_ok:
  "p \<noteq> [] \<Longrightarrow> denied w (Open p) = None \<Longrightarrow>
   open_write p c w = (Inr (), w\<lparr>files := (files w)(p \<mapsto> c), events := events w @ [Wrote p c]\<rparr>)"
  by (simp add: open_write_def log_def)

lemma open_write_raises:
  "fst (open_write p c w) = Inl e \<Longrightarrow> open_write p c w = (Inl e, w)"
  by (auto simp: open_write_def split: if_splits option.splits)


lemma fallback_eq:
  "fallback p w =
     (if os_path_exists (svg_path p) w
      then (Inr False, w\<lparr>events := events w @ [Renamed (svg_path p) (svg_path p),
              Printed ''Created SVG background (PNG conversion not available)'']\<rparr>)
      else (Inl FileNotFoundError, w))"
  by (cases "file_at w (svg_path p)")
     (simp_all add: fallback_def os_rename_def os_path_exists_def svg_path_def log_def print_line_def)

lemma create_background_open_raises:
  assumes "fst (open_write (svg_path p) (svg_content wd ht) w) = Inl e"
  shows "create_background env p wd ht w = (Inl e, w)"
  using open_write_raises[OF assms] by (simp add: create_background_def)

lemma create_background_not_started:
  assumes sp: "svg_path p \<noteq> []" and op: "denied w (Open (svg_path p)) = None"
    and run: "env (qlmanage_argv p wd ht) ((files w)(svg_path p \<mapsto> svg_content wd ht)) = NotStarted e"
  shows "create_background env p wd ht w =
    (Inr False, w\<lparr>files := (files w)(svg_path p \<mapsto> svg_content wd ht),
       events := events w @ [Wrote (svg_path p) (svg_content wd ht),
         Renamed (svg_path p) (svg_path p),
         Printed ''Created SVG background (PNG conversion not available)'']\<rparr>)"
proof -
  let ?sp = "svg_path p"
  let ?w1 = "w\<lparr>files := (files w)(?sp \<mapsto> svg_content wd ht), events := events w @ [Wrote ?sp (svg_content wd ht)]\<rparr>"
  have 1: "open_write ?sp (svg_content wd ht) w = (Inr (), ?w1)"
    using sp op by (rule open_write_ok)
  have 2: "try_convert env p wd ht ?w1 = (Inl e, ?w1)"
    using run by (simp add: try_convert_def subprocess_run_def)
  have 3: "os_path_exists ?sp ?w1" using sp by (simp add: os_path_exists_def file_at_def)
  show ?thesis
    using 1 2 3 by (simp add: create_background_def fallback_eq)
qed

lemma create_background_no_rename:
  assumes sp: "svg_path p \<noteq> []" and op: "denied w (Open (svg_path p)) = None"
    and run: "env (qlmanage_argv p wd ht) ((files w)(svg_path p \<mapsto> svg_content wd ht)) = Exited rc written removed"
    and no: "rc \<noteq> 0
        \<or> effect written removed ((files w)(svg_path p \<mapsto> svg_content wd ht)) (generated p) = None
        \<or> denied w (Rename (generated p) p) \<noteq> None"
  shows "create_background env p wd ht w =
    (if effect written removed ((files w)(svg_path p \<mapsto> svg_content wd ht)) (svg_path p) \<noteq> None
     then (Inr False,
       w\<lparr>files := effect written removed ((files w)(svg_path p \<mapsto> svg_content wd ht)),
         events := events w @ [Wrote (svg_path p) (svg_content wd ht), Ran (qlmanage_argv p wd ht),
           Renamed (svg_path p) (svg_path p),
           Printed ''Created SVG background (PNG conversion not available)'']\<rparr>)
     else (Inl FileNotFoundError,
       w\<lparr>files := effect written removed ((files w)(svg_path p \<mapsto> svg_content wd ht)),
         events := events w @ [Wrote (svg_path p) (svg_content wd ht), Ran (qlmanage_argv p wd ht)]\<rparr>))"
proof -
  let ?sp = "svg_path p"
  let ?gen = "generated p"
  let ?fs1 = "(files w)(?sp \<mapsto> svg_content wd ht)"
  let ?w1 = "w\<lparr>files := ?fs1, events := events w @ [Wrote ?sp (svg_content wd ht)]\<rparr>"
  let ?w2 = "w\<lparr>files := effect written removed ?fs1,
               events := events w @ [Wrote ?sp (svg_content wd ht), Ran (qlmanage_argv p wd ht)]\<rparr>"
  have p: "p \<noteq> []" using sp by (simp add: svg_path_empty_iff)
  have gp: "?gen \<noteq> p" "?gen \<noteq> []" by (rule generated_neq_out generated_nonempty)+
  have 1: "open_write ?sp (svg_content wd ht) w = (Inr (), ?w1)"
    using sp op by (rule open_write_ok)
  have 2: "subprocess_run env (qlmanage_argv p wd ht) ?w1 =
      (if rc \<noteq> 0 then Inl (CalledProcessError rc) else Inr (), ?w2)"
    using run by (simp add: subprocess_run_def log_def)
  have 3: "\<exists>e. try_convert env p wd ht ?w1 = (Inl e, ?w2) \<or> try_convert env p wd ht ?w1 = (Inr None, ?w2)"
  proof (cases "rc \<noteq> 0")
    case True
    then show ?thesis using 2 by (simp add: try_convert_def)
  next
    case False
    show ?thesis
    proof (cases "effect written removed ?fs1 ?gen")
      case None
      then show ?thesis using 2 False gp
        by (simp add: try_convert_def os_path_exists_def file_at_def)
    next
      case (Some png)
      with no False obtain e where "denied w (Rename ?gen p) = Some e" by auto
      then show ?thesis using 2 False gp p Some
        by (simp add: try_convert_def os_path_exists_def file_at_def os_rename_def)
    qed
  qed
  then have 4: "create_background env p wd ht w = fallback p ?w2"
    using 1 by (auto simp: create_background_def)
  show ?thesis
    unfolding 4 fallback_eq using sp by (simp add: os_path_exists_def file_at_def)
qed

lemma create_background_renamed:
  assumes sp: "svg_path p \<noteq> []" and op: "denied w (Open (svg_path p)) = None"
    and run: "env (qlmanage_argv p wd ht) ((files w)(svg_path p \<mapsto> svg_content wd ht)) = Exited 0 written removed"
    and gen: "effect written removed ((files w)(svg_path p \<mapsto> svg_content wd ht)) (generated p) = Some png"
    and rn: "denied w (Rename (generated p) p) = None"
  shows "create_background env p wd ht w =
    (if ((effect written removed ((files w)(svg_path p \<mapsto> svg_content wd ht)))
            (generated p := None, p \<mapsto> png)) (svg_path p) \<noteq> None
     then if denied w (Remove (svg_path p)) = None
       then (Inr True,
         w\<lparr>files := (effect written removed ((files w)(svg_path p \<mapsto> svg_content wd ht)))
                     (generated p := None, p \<mapsto> png, svg_path p := None),
           events := events w @ [Wrote (svg_path p) (svg_content wd ht), Ran (qlmanage_argv p wd ht),
             Renamed (generated p) p, Removed (svg_path p)]\<rparr>)
       else (Inr False,
         w\<lparr>files := (effect written removed ((files w)(svg_path p \<mapsto> svg_content wd ht)))
                     (generated p := None, p \<mapsto> png),
           events := events w @ [Wrote (svg_path p) (svg_content wd ht), Ran (qlmanage_argv p wd ht),
             Renamed (generated p) p, Renamed (svg_path p) (svg_path p),
             Printed ''Created SVG background (PNG conversion not available)'']\<rparr>)
     else (Inl FileNotFoundError,
       w\<lparr>files := (effect written removed ((files w)(svg_path p \<mapsto> svg_content wd ht)))
                   (generated p := None, p \<mapsto> png),
         events := events w @ [Wrote (svg_path p) (svg_content wd ht), Ran (qlmanage_argv p wd ht),
           Renamed (generated p) p]\<rparr>))"
proof -
  let ?sp = "svg_path p"
  let ?gen = "generated p"
  let ?fs1 = "(files w)(?sp \<mapsto> svg_content wd ht)"
  let ?B = "(effect written removed ?fs1)(?gen := None, p \<mapsto> png)"
  let ?w1 = "w\<lparr>files := ?fs1, events := events w @ [Wrote ?sp (svg_content wd ht)]\<rparr>"
  let ?w2 = "w\<lparr>files := effect written removed ?fs1,
               events := events w @ [Wrote ?sp (svg_content wd ht), Ran (qlmanage_argv p wd ht)]\<rparr>"
  let ?w3 = "w\<lparr>files := ?B,
               events := events w @ [Wrote ?sp (svg_content wd ht), Ran (qlmanage_argv p wd ht),
                 Renamed ?gen p]\<rparr>"
  have p: "p \<noteq> []" using sp by (simp add: svg_path_empty_iff)
  have gp: "?gen \<noteq> p" "?gen \<noteq> []" by (rule generated_neq_out generated_nonempty)+
  have 1: "open_write ?sp (svg_content wd ht) w = (Inr (), ?w1)"
    using sp op by (rule open_write_ok)
  have 2: "subprocess_run env (qlmanage_argv p wd ht) ?w1 = (Inr (), ?w2)"
    using run by (simp add: subprocess_run_def log_def)
  have 3: "os_path_exists ?gen ?w2"
    using gen gp by (simp add: os_path_exists_def file_at_def)
  have 4: "os_rename ?gen p ?w2 = (Inr (), ?w3)"
    using gen gp p rn by (simp add: os_rename_def file_at_def log_def)
  show ?thesis
  proof (cases "?B ?sp")
    case None
    then have "os_remove ?sp ?w3 = (Inl FileNotFoundError, ?w3)"
      by (simp add: os_remove_def file_at_def)
    then have "try_convert env p wd ht ?w1 = (Inl FileNotFoundError, ?w3)"
      unfolding try_convert_def using 2 3 4 by simp
    then have "create_background env p wd ht w = fallback p ?w3"
      using 1 by (simp add: create_background_def)
    then show ?thesis
      unfolding fallback_eq using None sp by (simp add: os_path_exists_def file_at_def)
  next
    case (Some c)
    show ?thesis
    proof (cases "denied w (Remove ?sp)")
      case None
      then have "os_remove ?sp ?w3 =
          (Inr (), w\<lparr>files := ?B(?sp := None),
             events := events w @ [Wrote ?sp (svg_content wd ht), Ran (qlmanage_argv p wd ht),
               Renamed ?gen p, Removed ?sp]\<rparr>)"
        using Some sp by (simp add: os_remove_def file_at_def log_def)
      then have "try_convert env p wd ht ?w1 =
          (Inr (Some True), w\<lparr>files := ?B(?sp := None),
             events := events w @ [Wrote ?sp (svg_content wd ht), Ran (qlmanage_argv p wd ht),
               Renamed ?gen p, Removed ?sp]\<rparr>)"
        unfolding try_convert_def using 2 3 4 by simp
      then show ?thesis
        using 1 Some None by (simp add: create_background_def)
    next
      case e: (Some e)
      then have "os_remove ?sp ?w3 = (Inl e, ?w3)"
        using Some sp by (simp add: os_remove_def file_at_def)
      then have "try_convert env p wd ht ?w1 = (Inl e, ?w3)"
        unfolding try_convert_def using 2 3 4 by simp
      then have "create_background env p wd ht w = fallback p ?w3"
        using 1 by (simp add: create_background_def)
      then show ?thesis
        unfolding fallback_eq using Some e sp by (simp add: os_path_exists_def file_at_def)
    qed
  qed
qed


subsection \<open>The paths of the examples\<close>

lemma svg_path_out: "svg_path ''out.png'' = ''out.svg''"
  by (simp add: svg_path_def str_replace.simps)

lemma generated_out: "generated ''out.png'' = ''out.svg.png''"
  by (simp add: generated_def svg_path_out)

lemma svg_path_a_png_png: "svg_path ''a.png.png'' = ''a.svg.svg''"
  by (simp add: svg_path_def str_replace.simps)

lemma svg_path_shots: "svg_path ''shots.png/bg.png'' = ''shots.svg/bg.svg''"
  by (simp add: svg_path_def str_replace.simps)


lemma str_int_600: "str_int 600 = ''600''"
  by (simp add: str_int_def str_nat.simps digit_char_def)

lemma qlmanage_argv_out:
  "qlmanage_argv ''out.png'' 600 400 = [''qlmanage'', ''-t'', ''-s'', ''600'', ''-o'', ''.'', ''out.svg'']"
  by (simp add: qlmanage_argv_def os_path_dirname_def svg_path_out str_int_600)

lemma qlmanage_argv_shots:
  "qlmanage_argv ''shots.png/bg.png'' 600 400 =
     [''qlmanage'', ''-t'', ''-s'', ''600'', ''-o'', ''shots.png'', ''shots.svg/bg.svg'']"
  by (simp add: qlmanage_argv_def os_path_dirname_def rstrip_sep_def svg_path_shots str_int_600)

section \<open>The claims\<close>

subsection \<open>C1: the conversion succeeds\<close>

text \<open>
  C1, as amended. Let the output path end in \<^verbatim>\<open>.png\<close>. If the SVG is written, the utility
  exits with status 0 and leaves the SVG in place, a file then exists at the name of the
  SVG plus \<^verbatim>\<open>.png\<close>, and the operating system refuses neither the rename of that file
  to the output path nor the removal of the SVG, then \<^verbatim>\<open>create_background\<close> returns
  \<^verbatim>\<open>True\<close>, that file is found at exactly the requested output path, and no file is left
  at the path of the SVG. This holds for every width and height.
\<close>

theorem C1_success_returns_true:
  fixes base :: string and w :: world and env :: env and width height :: int
  defines "p \<equiv> base @ ''.png''"
  defines "fs1 \<equiv> (files w)(svg_path p \<mapsto> svg_content width height)"
  assumes opened: "denied w (Open (svg_path p)) = None"
    and run: "env (qlmanage_argv p width height) fs1 = Exited 0 written removed"
    and gen: "effect written removed fs1 (generated p) = Some png"
    and renamed: "denied w (Rename (generated p) p) = None"
    and kept: "svg_path p \<notin> removed"
    and unlinked: "denied w (Remove (svg_path p)) = None"
  shows "fst (create_background env p width height w) = Inr True
       \<and> file_at (snd (create_background env p width height w)) p = Some png
       \<and> file_at (snd (create_background env p width height w)) (svg_path p) = None"
proof -
  have pne: "p \<noteq> []" by (simp add: p_def)
  have sp: "svg_path p \<noteq> []" using pne by (rule svg_path_nonempty)
  have ne: "svg_path p \<noteq> p" "generated p \<noteq> svg_path p"
    unfolding p_def by (rule svg_path_neq generated_neq_svg)+
  have there: "effect written removed fs1 (svg_path p) \<noteq> None"
    using kept by (simp add: effect_def fs1_def map_add_def split: option.splits)
  note res = create_background_renamed[where env = env and p = p and w = w,
      OF sp opened run[unfolded fs1_def] gen[unfolded fs1_def] renamed]
  show ?thesis
    using there ne pne unlinked by (simp add: res file_at_def fs1_def)
qed

theorem C1_success_witness:
  "create_background (\<lambda>argv fs. Exited 0 [''out.svg.png'' \<mapsto> ''PNG''] {}) ''out.png'' 600 400
         \<lparr>files = Map.empty, denied = Map.empty, events = []\<rparr>
     = (Inr True, \<lparr>files = [''out.png'' \<mapsto> ''PNG''], denied = Map.empty,
          events = [Wrote ''out.svg'' (svg_content 600 400),
            Ran [''qlmanage'', ''-t'', ''-s'', ''600'', ''-o'', ''.'', ''out.svg''],
            Renamed ''out.svg.png'' ''out.png'', Removed ''out.svg'']\<rparr>)"
proof -
  let ?env = "\<lambda>(argv::string list) (fs::path \<rightharpoonup> string). Exited 0 [''out.svg.png'' \<mapsto> ''PNG''] {}"
  let ?w = "\<lparr>files = Map.empty, denied = Map.empty, events = []\<rparr>"
  let ?r = "create_background ?env ''out.png'' 600 400 ?w"
  have c1: "fst ?r = Inr True \<and> file_at (snd ?r) ''out.png'' = Some ''PNG'' \<and> file_at (snd ?r) ''out.svg'' = None"
    using C1_success_returns_true[of ?w "''out''" ?env 600 400 "[''out.svg.png'' \<mapsto> ''PNG'']" "{}" "''PNG''"]
    by (simp add: svg_path_out generated_out effect_def)
  have r: "?r = (Inr True, ?w\<lparr>files := (effect [''out.svg.png'' \<mapsto> ''PNG''] {} ((files ?w)(''out.svg'' \<mapsto> svg_content 600 400)))
                     (''out.svg.png'' := None, ''out.png'' \<mapsto> ''PNG'', ''out.svg'' := None),
           events := events ?w @ [Wrote ''out.svg'' (svg_content 600 400), Ran (qlmanage_argv ''out.png'' 600 400),
             Renamed ''out.svg.png'' ''out.png'', Removed ''out.svg'']\<rparr>)"
    using create_background_renamed[where env = ?env and p = "''out.png''" and w = ?w and wd = 600 and ht = 400
        and written = "[''out.svg.png'' \<mapsto> ''PNG'']" and removed = "{}" and png = "''PNG''"]
    by (simp add: svg_path_out generated_out effect_def)
  have f: "(effect [''out.svg.png'' \<mapsto> ''PNG''] {} ((files ?w)(''out.svg'' \<mapsto> svg_content 600 400)))
                     (''out.svg.png'' := None, ''out.png'' \<mapsto> ''PNG'', ''out.svg'' := None) = [''out.png'' \<mapsto> ''PNG'']"
    by (rule ext) (simp add: effect_def map_add_def)
  show ?thesis using c1 unfolding r f by (simp add: qlmanage_argv_out)
qed

text \<open>
  As stated, with nothing said of the rename and the removal, C1 fails: when the output
  path names a directory the rename is refused, the exception is discarded, and the call
  returns \<^verbatim>\<open>False\<close> although the utility has exited with status 0 and the generated file
  exists; that file stays where the utility wrote it.
\<close>

theorem C1_refused_rename_counterexample:
  "fst (create_background (\<lambda>argv fs. Exited 0 [''out.svg.png'' \<mapsto> ''PNG''] {}) ''out.png'' 600 400
         \<lparr>files = Map.empty, denied = [Rename ''out.svg.png'' ''out.png'' \<mapsto> IsADirectoryError],
          events = []\<rparr>) = Inr False
   \<and> file_at (snd (create_background (\<lambda>argv fs. Exited 0 [''out.svg.png'' \<mapsto> ''PNG''] {}) ''out.png'' 600 400
         \<lparr>files = Map.empty, denied = [Rename ''out.svg.png'' ''out.png'' \<mapsto> IsADirectoryError],
          events = []\<rparr>)) ''out.svg.png'' = Some ''PNG''
   \<and> file_at (snd (create_background (\<lambda>argv fs. Exited 0 [''out.svg.png'' \<mapsto> ''PNG''] {}) ''out.png'' 600 400
         \<lparr>files = Map.empty, denied = [Rename ''out.svg.png'' ''out.png'' \<mapsto> IsADirectoryError],
          events = []\<rparr>)) ''out.png'' = None"
  using create_background_no_rename[where env = "\<lambda>argv fs. Exited 0 [''out.svg.png'' \<mapsto> ''PNG''] {}"
      and p = "''out.png''" and wd = 600 and ht = 400 and rc = 0
      and written = "[''out.svg.png'' \<mapsto> ''PNG'']" and removed = "{}"
      and w = "\<lparr>files = Map.empty, denied = [Rename ''out.svg.png'' ''out.png'' \<mapsto> IsADirectoryError],
          events = []\<rparr>"]
  by (simp add: svg_path_out generated_out effect_def file_at_def)

subsection \<open>C2: the conversion is not available\<close>

text \<open>
  C2 expects, when the utility is not available, the value \<^verbatim>\<open>False\<close> and an SVG at the
  output path with its extension \<^verbatim>\<open>.png\<close> replaced by \<^verbatim>\<open>.svg\<close>. For the output path
  \<^verbatim>\<open>a.png.png\<close> and a utility that is not found, the call returns \<^verbatim>\<open>False\<close>, but the
  SVG is at \<^verbatim>\<open>a.svg.svg\<close> and nothing is at \<^verbatim>\<open>a.png.svg\<close>: line 45 replaces every
  occurrence of \<^verbatim>\<open>.png\<close>, not the extension.
\<close>

theorem C2_png_in_name_evaluation:
  "fst (create_background (\<lambda>argv fs. NotStarted FileNotFoundError) ''a.png.png'' 600 400
         \<lparr>files = Map.empty, denied = Map.empty, events = []\<rparr>) = Inr False
   \<and> file_at (snd (create_background (\<lambda>argv fs. NotStarted FileNotFoundError) ''a.png.png'' 600 400
         \<lparr>files = Map.empty, denied = Map.empty, events = []\<rparr>)) ''a.png.svg'' = None
   \<and> file_at (snd (create_background (\<lambda>argv fs. NotStarted FileNotFoundError) ''a.png.png'' 600 400
         \<lparr>files = Map.empty, denied = Map.empty, events = []\<rparr>)) ''a.svg.svg'' = Some (svg_content 600 400)"
  using create_background_not_started[where env = "\<lambda>argv fs. NotStarted FileNotFoundError"
      and p = "''a.png.png''" and wd = 600 and ht = 400 and e = FileNotFoundError
      and w = "\<lparr>files = Map.empty, denied = Map.empty, events = []\<rparr>"]
  by (simp add: svg_path_a_png_png file_at_def)

subsection \<open>C3: exceptions\<close>




subsection \<open>C4: the artifacts at exit\<close>

text \<open>
  C4, as amended. Let the output path end in \<^verbatim>\<open>.png\<close>. When the call returns \<^verbatim>\<open>True\<close>, a
  file exists at the output path and none at the path of the SVG nor at the generated
  name, and the last two effects of the call are the rename of the generated file to the
  output path and then the removal of the SVG. When it returns \<^verbatim>\<open>False\<close>, the SVG exists,
  the call has removed nothing, and a file exists at the output path only if one existed
  before the call, or the utility wrote one, or the call renamed the generated file to it
  (and the removal of the SVG was then refused).
\<close>

theorem C4_artifacts_at_exit:
  fixes base :: string and w :: world and env :: env and width height :: int
  defines "p \<equiv> base @ ''.png''"
  defines "r \<equiv> create_background env p width height w"
  defines "fs1 \<equiv> (files w)(svg_path p \<mapsto> svg_content width height)"
  shows "(fst r = Inr True \<longrightarrow>
          file_at (snd r) p \<noteq> None \<and> file_at (snd r) (svg_path p) = None
          \<and> file_at (snd r) (generated p) = None
          \<and> drop (length (events w) + 2) (events (snd r)) = [Renamed (generated p) p, Removed (svg_path p)])
    \<and> (fst r = Inr False \<longrightarrow>
          file_at (snd r) (svg_path p) \<noteq> None
          \<and> (\<forall>q. Removed q \<notin> set (drop (length (events w)) (events (snd r))))
          \<and> (file_at w p = None
               \<and> (\<forall>rc written removed. env (qlmanage_argv p width height) fs1 = Exited rc written removed
                      \<longrightarrow> written p = None)
               \<and> Renamed (generated p) p \<notin> set (drop (length (events w)) (events (snd r)))
               \<longrightarrow> file_at (snd r) p = None))"
proof -
  have p: "p \<noteq> []" by (simp add: p_def)
  have sp: "svg_path p \<noteq> []" using p by (rule svg_path_nonempty)
  have ne: "svg_path p \<noteq> p" "generated p \<noteq> p" "generated p \<noteq> svg_path p" "generated p \<noteq> []"
    unfolding p_def by (rule svg_path_neq generated_neq_out generated_neq_svg generated_nonempty)+
  show ?thesis
  proof (cases "denied w (Open (svg_path p))")
    case (Some e)
    then have "fst (open_write (svg_path p) (svg_content width height) w) = Inl e"
      using sp by (simp add: open_write_def)
    then have "r = (Inl e, w)"
      unfolding r_def by (rule create_background_open_raises)
    then show ?thesis by simp
  next
    case op: None
    show ?thesis
    proof (cases "env (qlmanage_argv p width height) fs1")
      case (NotStarted e)
      have "r = (Inr False, w\<lparr>files := fs1,
         events := events w @ [Wrote (svg_path p) (svg_content width height),
           Renamed (svg_path p) (svg_path p),
           Printed ''Created SVG background (PNG conversion not available)'']\<rparr>)"
        unfolding r_def fs1_def
        by (rule create_background_not_started[where env = env and p = p, OF sp op NotStarted[unfolded fs1_def]])
      then show ?thesis using p sp ne
        by (simp add: file_at_def fs1_def)
    next
      case (Exited rc written removed)
      show ?thesis
      proof (cases "rc \<noteq> 0 \<or> effect written removed fs1 (generated p) = None
          \<or> denied w (Rename (generated p) p) \<noteq> None")
        case True
        note res = create_background_no_rename[where env = env and p = p and w = w,
            OF sp op Exited[unfolded fs1_def] True[unfolded fs1_def], folded fs1_def r_def]
        show ?thesis
          using p sp ne Exited
          by (simp add: res file_at_def)
             (auto simp: effect_def fs1_def map_add_def split: option.splits)
      next
        case False
        then obtain png where rc: "rc = 0"
          and gen: "effect written removed fs1 (generated p) = Some png"
          and rn: "denied w (Rename (generated p) p) = None"
          by auto
        from Exited rc have run: "env (qlmanage_argv p width height) fs1 = Exited 0 written removed"
          by simp
        note res = create_background_renamed[where env = env and p = p and w = w,
            OF sp op run[unfolded fs1_def] gen[unfolded fs1_def] rn, folded fs1_def r_def]
        show ?thesis
          using p sp ne by (simp add: res file_at_def)
      qed
    qed
  qed
qed

theorem C4_artifacts_witness:
  "file_at (snd (create_background (\<lambda>argv fs. Exited 0 [''out.svg.png'' \<mapsto> ''PNG''] {}) ''out.png'' 600 400
      \<lparr>files = Map.empty, denied = Map.empty, events = []\<rparr>)) ''out.svg'' = None
   \<and> file_at (snd (create_background (\<lambda>argv fs. Exited 0 [''out.svg.png'' \<mapsto> ''PNG''] {}) ''out.png'' 600 400
      \<lparr>files = Map.empty, denied = Map.empty, events = []\<rparr>)) ''out.png'' \<noteq> None
   \<and> file_at (snd (create_background (\<lambda>argv fs. NotStarted FileNotFoundError) ''out.png'' 600 400
      \<lparr>files = Map.empty, denied = Map.empty, events = []\<rparr>)) ''out.png'' = None
   \<and> file_at (snd (create_background (\<lambda>argv fs. NotStarted FileNotFoundError) ''out.png'' 600 400
      \<lparr>files = Map.empty, denied = Map.empty, events = []\<rparr>)) ''out.svg'' \<noteq> None"
proof -
  let ?w0 = "\<lparr>files = Map.empty, denied = Map.empty, events = []\<rparr>"
  let ?ok = "\<lambda>(argv::string list) (fs::path \<rightharpoonup> string). Exited 0 [''out.svg.png'' \<mapsto> ''PNG''] {}"
  let ?nf = "\<lambda>(argv::string list) (fs::path \<rightharpoonup> string). NotStarted FileNotFoundError"
  have t: "fst (create_background ?ok ''out.png'' 600 400 ?w0) = Inr True"
    using create_background_renamed[where env = ?ok and p = "''out.png''" and w = ?w0
        and wd = 600 and ht = 400 and written = "[''out.svg.png'' \<mapsto> ''PNG'']" and removed = "{}"
        and png = "''PNG''"]
    by (simp add: generated_out svg_path_out effect_def)
  have f: "create_background ?nf ''out.png'' 600 400 ?w0 =
      (Inr False, ?w0\<lparr>files := (files ?w0)(''out.svg'' \<mapsto> svg_content 600 400),
         events := events ?w0 @ [Wrote ''out.svg'' (svg_content 600 400), Renamed ''out.svg'' ''out.svg'',
           Printed ''Created SVG background (PNG conversion not available)'']\<rparr>)"
    using create_background_not_started[where env = ?nf and p = "''out.png''" and w = ?w0
        and wd = 600 and ht = 400 and e = FileNotFoundError]
    by (simp add: svg_path_out)
  have a: "file_at (snd (create_background ?ok ''out.png'' 600 400 ?w0)) ''out.svg'' = None
      \<and> file_at (snd (create_background ?ok ''out.png'' 600 400 ?w0)) ''out.png'' \<noteq> None"
    using C4_artifacts_at_exit[of ?ok "''out''" 600 400 ?w0, THEN conjunct1] t
    by (simp add: svg_path_out)
  have b: "file_at (snd (create_background ?nf ''out.png'' 600 400 ?w0)) ''out.png'' = None
      \<and> file_at (snd (create_background ?nf ''out.png'' 600 400 ?w0)) ''out.svg'' \<noteq> None"
    using C4_artifacts_at_exit[of ?nf "''out''" 600 400 ?w0, THEN conjunct2]
    by (simp add: svg_path_out generated_out f) (simp add: file_at_def)
  from a b show ?thesis by simp
qed

text \<open>
  As stated (exactly one artifact at exit), C4 fails when a file exists at the output path
  before the call and the utility is not found: the old file and the SVG both remain.
\<close>

theorem C4_stale_png_counterexample:
  "fst (create_background (\<lambda>argv fs. NotStarted FileNotFoundError) ''out.png'' 600 400
      \<lparr>files = [''out.png'' \<mapsto> ''old''], denied = Map.empty, events = []\<rparr>) = Inr False
   \<and> file_at (snd (create_background (\<lambda>argv fs. NotStarted FileNotFoundError) ''out.png'' 600 400
      \<lparr>files = [''out.png'' \<mapsto> ''old''], denied = Map.empty, events = []\<rparr>)) ''out.png'' = Some ''old''
   \<and> file_at (snd (create_background (\<lambda>argv fs. NotStarted FileNotFoundError) ''out.png'' 600 400
      \<lparr>files = [''out.png'' \<mapsto> ''old''], denied = Map.empty, events = []\<rparr>)) ''out.svg''
       = Some (svg_content 600 400)"
  using create_background_not_started[where env = "\<lambda>argv fs. NotStarted FileNotFoundError"
      and p = "''out.png''" and wd = 600 and ht = 400 and e = FileNotFoundError
      and w = "\<lparr>files = [''out.png'' \<mapsto> ''old''], denied = Map.empty, events = []\<rparr>"]
  by (simp add: svg_path_out file_at_def)

text \<open>
  The SVG and the PNG also both remain, with the value \<^verbatim>\<open>False\<close>, when the rename is
  carried out and the removal of the SVG is refused.
\<close>

lemma removal_refused_example:
  "fst (create_background (\<lambda>argv fs. Exited 0 [''out.svg.png'' \<mapsto> ''PNG''] {}) ''out.png'' 600 400
      \<lparr>files = Map.empty, denied = [Remove ''out.svg'' \<mapsto> PermissionError], events = []\<rparr>) = Inr False
   \<and> file_at (snd (create_background (\<lambda>argv fs. Exited 0 [''out.svg.png'' \<mapsto> ''PNG''] {}) ''out.png'' 600 400
      \<lparr>files = Map.empty, denied = [Remove ''out.svg'' \<mapsto> PermissionError], events = []\<rparr>)) ''out.png''
       = Some ''PNG''
   \<and> file_at (snd (create_background (\<lambda>argv fs. Exited 0 [''out.svg.png'' \<mapsto> ''PNG''] {}) ''out.png'' 600 400
      \<lparr>files = Map.empty, denied = [Remove ''out.svg'' \<mapsto> PermissionError], events = []\<rparr>)) ''out.svg''
       = Some (svg_content 600 400)"
  using create_background_renamed[where env = "\<lambda>argv fs. Exited 0 [''out.svg.png'' \<mapsto> ''PNG''] {}"
      and p = "''out.png''" and wd = 600 and ht = 400
      and written = "[''out.svg.png'' \<mapsto> ''PNG'']" and removed = "{}" and png = "''PNG''"
      and w = "\<lparr>files = Map.empty, denied = [Remove ''out.svg'' \<mapsto> PermissionError], events = []\<rparr>"]
  by (simp add: svg_path_out generated_out effect_def file_at_def)

subsection \<open>C5: the structure of the document\<close>

text \<open>
  C5. For every width and height the document starts with the XML declaration followed by
  the opening tag of the single \<^verbatim>\<open>svg\<close> element, whose \<^verbatim>\<open>width\<close> and \<^verbatim>\<open>height\<close> attributes
  are decimal numerals that read back as the requested width and height, and ends with
  its closing tag. It has one \<^verbatim>\<open>linearGradient\<close> element, one \<^verbatim>\<open>marker\<close> element, which has
  the id \<^verbatim>\<open>arrowhead\<close>, one \<^verbatim>\<open>line\<close> element, which carries a \<^verbatim>\<open>stroke-dasharray\<close>, and one
  \<^verbatim>\<open>text\<close> element, which contains the instruction. (The \<^verbatim>\<open>line\<close> tag is searched with its
  trailing space, since \<^verbatim>\<open><linearGradient\<close> starts with the same five characters.)
\<close>

theorem C5_document_structure:
  \<open>prefix ''<?xml version="1.0" encoding="UTF-8"?>\<newline><svg '' (svg_content width height)
   \<and> count_occ ''<svg'' (svg_content width height) = 1
   \<and> element ''<svg'' ''>'' (svg_content width height) =
       ''<svg width="'' @ str_int width @ ''" height="'' @ str_int height @
       ''" xmlns="http://www.w3.org/2000/svg">''
   \<and> read_int (attribute ''width'' (element ''<svg'' ''>'' (svg_content width height))) = Some width
   \<and> read_int (attribute ''height'' (element ''<svg'' ''>'' (svg_content width height))) = Some height
   \<and> drop_until ''</svg>'' (svg_content width height) = ''</svg>''
   \<and> count_occ ''<linearGradient'' (svg_content width height) = 1
   \<and> count_occ ''<marker'' (svg_content width height) = 1
   \<and> count_occ ''<marker id="arrowhead"'' (svg_content width height) = 1
   \<and> count_occ ''<line '' (svg_content width height) = 1
   \<and> count_occ ''stroke-dasharray="10,5"'' (element ''<line '' ''/>'' (svg_content width height)) = 1
   \<and> count_occ ''<text'' (svg_content width height) = 1
   \<and> count_occ ''Drag Extremis to Applications to install''
        (element ''<text'' ''</text>'' (svg_content width height)) = 1\<close>
proof -
  have dashed: \<open>count_occ ''stroke-dasharray="10,5"'' (element ''<line '' ''/>'' (svg_content width height)) = 1\<close>
    by (simp add: line_element)
  have instruction: \<open>count_occ ''Drag Extremis to Applications to install''
        (element ''<text'' ''</text>'' (svg_content width height)) = 1\<close>
    unfolding text_element by (simp add: scan_simps del: append.simps(2))
  have numerals:
    "read_int (attribute ''width'' (element ''<svg'' ''>'' (svg_content width height))) = Some width"
    "read_int (attribute ''height'' (element ''<svg'' ''>'' (svg_content width height))) = Some height"
    by (simp_all only: svg_width_attribute svg_height_attribute read_int_str_int)
  show ?thesis
    using dashed instruction numerals
    by (simp only: doc_prefix count_svg svg_element doc_close count_gradient count_marker_tag
        count_marker count_line count_text simp_thms)
qed

subsection \<open>C6: the placement of the text\<close>

text \<open>
  C6, as amended. For every width and height the document has one \<^verbatim>\<open>text\<close> element; its
  \<^verbatim>\<open>x\<close> attribute is a decimal numeral that reads back as the requested width divided by
  two, rounded down, and it is anchored in the middle; its \<^verbatim>\<open>y\<close> attribute is the literal
  340. The requested height does not occur in the element.
\<close>

theorem C6_text_placement:
  \<open>count_occ ''<text'' (svg_content width height) = 1
   \<and> element ''<text'' ''</text>'' (svg_content width height) =
    ''<text x="'' @ str_int (width div 2) @ ''" y="340" \<newline>'' @
    ''        font-family="SF Pro Display, Helvetica Neue, Arial" \<newline>'' @
    ''        font-size="16" \<newline>'' @
    ''        fill="#999999" \<newline>'' @
    ''        text-anchor="middle">\<newline>'' @
    ''    Drag Extremis to Applications to install\<newline>'' @
    ''  </text>''
   \<and> read_int (attribute ''x'' (element ''<text'' ''</text>'' (svg_content width height)))
       = Some (width div 2)
   \<and> attribute ''y'' (element ''<text'' ''</text>'' (svg_content width height)) = ''340''
   \<and> attribute ''text-anchor'' (element ''<text'' ''</text>'' (svg_content width height)) = ''middle''\<close>
proof -
  have x: "read_int (attribute ''x'' (element ''<text'' ''</text>'' (svg_content width height)))
       = Some (width div 2)"
    by (simp only: text_x_attribute read_int_str_int)
  show ?thesis
    using x by (simp only: count_text text_element[symmetric] text_y_attribute text_anchor_attribute simp_thms)
      (simp only: text_element)
qed

text \<open>
  As stated (the placement uses the requested height), C6 fails: a canvas of height 100
  and one of height 400 get the same \<^verbatim>\<open>text\<close> element, placed at \<^verbatim>\<open>y="340"\<close>.
\<close>

theorem C6_height_unused_counterexample:
  \<open>element ''<text'' ''</text>'' (svg_content 600 100) = element ''<text'' ''</text>'' (svg_content 600 400)
   \<and> count_occ ''y="340"'' (element ''<text'' ''</text>'' (svg_content 600 100)) = 1\<close>
  unfolding text_element by (simp add: scan_simps del: append.simps(2))

subsection \<open>C7: the arrow\<close>

text \<open>
  C7. For every width and height the document has exactly one \<^verbatim>\<open>line\<close> element, and it is
  the literal text of the template, with the coordinates x1=380, y1=200, x2=220, y2=200:
  neither the requested width nor the requested height occurs in it.
\<close>

theorem C7_arrow_coordinates_fixed:
  \<open>count_occ ''<line '' (svg_content width height) = 1 \<and>
   element ''<line '' ''/>'' (svg_content width height) =
     ''<line x1="380" y1="200" x2="220" y2="200" \<newline>'' @
     ''        stroke="#888888" stroke-width="3" \<newline>'' @
     ''        marker-end="url(#arrowhead)"\<newline>'' @
     ''        stroke-dasharray="10,5"/>''\<close>
  by (simp only: count_line line_element)

subsection \<open>C8: where the SVG is written\<close>

text \<open>
  C8 expects the SVG beside the output path: same directory, same base name, extension
  \<^verbatim>\<open>.svg\<close>. For the output path \<^verbatim>\<open>shots.png/bg.png\<close> the call writes the SVG to
  \<^verbatim>\<open>shots.svg/bg.svg\<close>, in the directory \<^verbatim>\<open>shots.svg\<close> and not in \<^verbatim>\<open>shots.png\<close>, while the
  command line built at lines 54 to 57 still names \<^verbatim>\<open>shots.png\<close> as the output directory
  of the utility: line 45 replaces every occurrence of \<^verbatim>\<open>.png\<close>, not the extension.
\<close>

theorem C8_other_directory_evaluation:
  "create_background (\<lambda>argv fs. NotStarted FileNotFoundError) ''shots.png/bg.png'' 600 400
         \<lparr>files = Map.empty, denied = Map.empty, events = []\<rparr>
     = (Inr False, \<lparr>files = [''shots.svg/bg.svg'' \<mapsto> svg_content 600 400], denied = Map.empty,
          events = [Wrote ''shots.svg/bg.svg'' (svg_content 600 400),
            Renamed ''shots.svg/bg.svg'' ''shots.svg/bg.svg'',
            Printed ''Created SVG background (PNG conversion not available)'']\<rparr>)
   \<and> os_path_dirname ''shots.svg/bg.svg'' = ''shots.svg''
   \<and> os_path_dirname ''shots.png/bg.png'' = ''shots.png''
   \<and> qlmanage_argv ''shots.png/bg.png'' 600 400 =
       [''qlmanage'', ''-t'', ''-s'', ''600'', ''-o'', ''shots.png'', ''shots.svg/bg.svg'']"
  using create_background_not_started[where env = "\<lambda>argv fs. NotStarted FileNotFoundError"
      and p = "''shots.png/bg.png''" and wd = 600 and ht = 400 and e = FileNotFoundError
      and w = "\<lparr>files = Map.empty, denied = Map.empty, events = []\<rparr>"]
  by (simp add: svg_path_shots qlmanage_argv_shots os_path_dirname_def rstrip_sep_def)

subsection \<open>C9: calling twice\<close>




subsection \<open>C10: the rename of the fallback\<close>

text \<open>
  C10. The source and the destination of the rename in the fallback are the same path:
  the output path with every occurrence of \<^verbatim>\<open>.png\<close> replaced by \<^verbatim>\<open>.svg\<close> (no occurrence is
  left, and the length is unchanged). So the fallback moves nothing: when a file exists
  at that path it returns \<^verbatim>\<open>False\<close> and only the log of effects has grown; when no file
  exists there, the rename raises and the world is unchanged.
\<close>

theorem C10_fallback_rename_is_identity:
  "svg_path output_path = str_replace ''.png'' ''.svg'' output_path
   \<and> count_occ ''.png'' (svg_path output_path) = 0
   \<and> length (svg_path output_path) = length output_path
   \<and> fallback output_path w =
       (if os_path_exists (svg_path output_path) w
        then (Inr False,
              w\<lparr>events := events w @ [Renamed (svg_path output_path) (svg_path output_path),
                   Printed ''Created SVG background (PNG conversion not available)'']\<rparr>)
        else (Inl FileNotFoundError, w))"
  using fallback_eq[of output_path w] length_svg_path[of output_path]
    count_occ_svg_path[of output_path]
  by (simp add: svg_path_def)

theorem C10_fallback_witness:
  "fallback ''out.png'' \<lparr>files = [''out.svg'' \<mapsto> ''svg''], denied = Map.empty, events = []\<rparr> =
     (Inr False, \<lparr>files = [''out.svg'' \<mapsto> ''svg''], denied = Map.empty,
        events = [Renamed ''out.svg'' ''out.svg'',
          Printed ''Created SVG background (PNG conversion not available)'']\<rparr>)
   \<and> fallback ''out.png'' \<lparr>files = Map.empty, denied = Map.empty, events = []\<rparr> =
     (Inl FileNotFoundError, \<lparr>files = Map.empty, denied = Map.empty, events = []\<rparr>)"
proof -
  note at_svg = C10_fallback_rename_is_identity[of "''out.png''"
      "\<lparr>files = [''out.svg'' \<mapsto> ''svg''], denied = Map.empty, events = []\<rparr>"]
  note at_none = C10_fallback_rename_is_identity[of "''out.png''"
      "\<lparr>files = Map.empty, denied = Map.empty, events = []\<rparr>"]
  from at_svg[THEN conjunct2, THEN conjunct2, THEN conjunct2]
    at_none[THEN conjunct2, THEN conjunct2, THEN conjunct2]
  show ?thesis
    by (simp add: svg_path_out os_path_exists_def file_at_def)
qed

end
